theory Spec2Isabelle
  imports Complex_Main "HOL-Library.Code_Target_Nat"
begin

section \<open>Numbers and exceptions of the host language\<close>

text \<open>
  The generator is a Python program; its coordinates are Python floats. A float is modelled
  as an exact rational or one of the three special values that \<^verbatim>\<open>float()\<close> can read from
  text (\<^verbatim>\<open>inf\<close>, \<^verbatim>\<open>-inf\<close>, \<^verbatim>\<open>nan\<close>). Finite arithmetic is exact: the rounding of a finite
  value to 53 bits, the overflow of a finite result to an infinity and the sign of zero are
  not modelled. Integers are unbounded, as in Python.
  Exceptions are values: a function that can raise returns \<open>exn + 'a\<close>, with the exception
  on the left.
\<close>

datatype pyfloat = Fin rat | PInf | NInf | NaN

datatype exn = ValueError | OverflowError | IndexError

fun py_neg :: "pyfloat \<Rightarrow> pyfloat" where
  "py_neg (Fin a) = Fin (- a)"
| "py_neg PInf = NInf"
| "py_neg NInf = PInf"
| "py_neg NaN = NaN"

fun py_add :: "pyfloat \<Rightarrow> pyfloat \<Rightarrow> pyfloat" where
  "py_add (Fin a) (Fin b) = Fin (a + b)"
| "py_add NaN _ = NaN"
| "py_add _ NaN = NaN"
| "py_add PInf NInf = NaN"
| "py_add NInf PInf = NaN"
| "py_add PInf _ = PInf"
| "py_add NInf _ = NInf"
| "py_add _ PInf = PInf"
| "py_add _ NInf = NInf"

definition py_sub :: "pyfloat \<Rightarrow> pyfloat \<Rightarrow> pyfloat" where
  "py_sub a b = py_add a (py_neg b)"

fun py_sgn :: "pyfloat \<Rightarrow> int option" where
  "py_sgn (Fin a) = Some (if a < 0 then - 1 else if a = 0 then 0 else 1)"
| "py_sgn PInf = Some 1"
| "py_sgn NInf = Some (- 1)"
| "py_sgn NaN = None"

fun py_mul :: "pyfloat \<Rightarrow> pyfloat \<Rightarrow> pyfloat" where
  "py_mul (Fin a) (Fin b) = Fin (a * b)"
| "py_mul a b =
     (case (py_sgn a, py_sgn b) of
        (Some s, Some t) \<Rightarrow> (if s * t = 0 then NaN else if s * t < 0 then NInf else PInf)
      | _ \<Rightarrow> NaN)"

fun py_abs :: "pyfloat \<Rightarrow> pyfloat" where
  "py_abs (Fin a) = Fin \<bar>a\<bar>"
| "py_abs PInf = PInf"
| "py_abs NInf = PInf"
| "py_abs NaN = NaN"

text \<open>Comparisons with \<^verbatim>\<open>nan\<close> are false.\<close>

fun py_less :: "pyfloat \<Rightarrow> pyfloat \<Rightarrow> bool" where
  "py_less (Fin a) (Fin b) = (a < b)"
| "py_less NaN _ = False"
| "py_less _ NaN = False"
| "py_less NInf NInf = False"
| "py_less NInf _ = True"
| "py_less _ NInf = False"
| "py_less PInf _ = False"
| "py_less _ PInf = True"

definition py_gt :: "pyfloat \<Rightarrow> pyfloat \<Rightarrow> bool" where
  "py_gt a b = py_less b a"

fun py_le :: "pyfloat \<Rightarrow> pyfloat \<Rightarrow> bool" where
  "py_le (Fin a) (Fin b) = (a \<le> b)"
| "py_le NaN _ = False"
| "py_le _ NaN = False"
| "py_le NInf _ = True"
| "py_le _ PInf = True"
| "py_le PInf _ = False"
| "py_le _ NInf = False"

text \<open>\<^verbatim>\<open>int(v)\<close> truncates towards zero; it raises on the special values.\<close>

definition trunc :: "rat \<Rightarrow> int" where
  "trunc q = (if 0 \<le> q then \<lfloor>q\<rfloor> else - \<lfloor>- q\<rfloor>)"

fun py_int :: "pyfloat \<Rightarrow> exn + int" where
  "py_int (Fin q) = Inr (trunc q)"
| "py_int PInf = Inl OverflowError"
| "py_int NInf = Inl OverflowError"
| "py_int NaN = Inl ValueError"

section \<open>Text\<close>

text \<open>
  Text is ASCII. \<open>is_space\<close> is \<^verbatim>\<open>str.isspace\<close> on the ASCII range, which is what
  \<^verbatim>\<open>strip()\<close> and \<^verbatim>\<open>split()\<close> without arguments use.
\<close>

definition is_space :: "char \<Rightarrow> bool" where
  "is_space c = (c \<in> set [CHR 0x09, CHR 0x0A, CHR 0x0B, CHR 0x0C, CHR 0x0D,
                           CHR 0x1C, CHR 0x1D, CHR 0x1E, CHR 0x1F, CHR '' ''])"

definition lstrip :: "string \<Rightarrow> string" where
  "lstrip s = dropWhile is_space s"

definition rstrip :: "string \<Rightarrow> string" where
  "rstrip s = rev (dropWhile is_space (rev s))"

definition strip :: "string \<Rightarrow> string" where
  "strip s = rstrip (lstrip s)"

text \<open>
  \<^verbatim>\<open>float()\<close> drops a smaller set of characters around an ASCII text than \<^verbatim>\<open>strip()\<close>:
  those of C's \<^verbatim>\<open>isspace\<close>.
\<close>

definition is_float_space :: "char \<Rightarrow> bool" where
  "is_float_space c = (c \<in> set [CHR 0x09, CHR 0x0A, CHR 0x0B, CHR 0x0C, CHR 0x0D, CHR '' ''])"

definition float_strip :: "string \<Rightarrow> string" where
  "float_strip s = rev (dropWhile is_float_space (rev (dropWhile is_float_space s)))"

text \<open>\<^verbatim>\<open>s.rstrip(c)\<close> for a one-character argument.\<close>

definition rstrip_ch :: "char \<Rightarrow> string \<Rightarrow> string" where
  "rstrip_ch c s = rev (dropWhile (\<lambda>d. d = c) (rev s))"

definition upper_char :: "char \<Rightarrow> char" where
  "upper_char c =
     (case map_of (zip ''abcdefghijklmnopqrstuvwxyz'' ''ABCDEFGHIJKLMNOPQRSTUVWXYZ'') c of
        Some u \<Rightarrow> u | None \<Rightarrow> c)"

definition lower_char :: "char \<Rightarrow> char" where
  "lower_char c =
     (case map_of (zip ''ABCDEFGHIJKLMNOPQRSTUVWXYZ'' ''abcdefghijklmnopqrstuvwxyz'') c of
        Some l \<Rightarrow> l | None \<Rightarrow> c)"

definition upper :: "string \<Rightarrow> string" where
  "upper s = map upper_char s"

definition lower :: "string \<Rightarrow> string" where
  "lower s = map lower_char s"

definition startswith :: "string \<Rightarrow> string \<Rightarrow> bool" where
  "startswith s p = (take (length p) s = p)"

text \<open>\<^verbatim>\<open>sub in s\<close>.\<close>

fun contains :: "string \<Rightarrow> string \<Rightarrow> bool" where
  "contains sub [] = (sub = [])"
| "contains sub (c # cs) = (startswith (c # cs) sub \<or> contains sub cs)"

text \<open>\<^verbatim>\<open>if c in line: line = line.split(c, 1)[0]\<close>.\<close>

definition cut_at :: "char \<Rightarrow> string \<Rightarrow> string" where
  "cut_at c line = (if c \<in> set line then takeWhile (\<lambda>d. d \<noteq> c) line else line)"

text \<open>\<^verbatim>\<open>line.replace(',', ' ')\<close>.\<close>

definition replace_comma :: "string \<Rightarrow> string" where
  "replace_comma line = map (\<lambda>c. if c = CHR '','' then CHR '' '' else c) line"

text \<open>\<^verbatim>\<open>s.split()\<close>: the maximal runs of non-space characters, in order.\<close>

fun split_acc :: "string \<Rightarrow> string \<Rightarrow> string list" where
  "split_acc cur [] = (if cur = [] then [] else [cur])"
| "split_acc cur (c # cs) =
     (if is_space c then (if cur = [] then split_acc [] cs else cur # split_acc [] cs)
      else split_acc (cur @ [c]) cs)"

definition split_ws :: "string \<Rightarrow> string list" where
  "split_ws s = split_acc [] s"

section \<open>Reading and writing numbers\<close>

definition is_digit :: "char \<Rightarrow> bool" where
  "is_digit c = (c \<in> set ''0123456789'')"

definition digit_val :: "char \<Rightarrow> nat" where
  "digit_val c = (case map_of (zip ''0123456789'' [0 ..< 10]) c of Some d \<Rightarrow> d | None \<Rightarrow> 0)"

definition digits_val :: "string \<Rightarrow> nat" where
  "digits_val s = foldl (\<lambda>a c. 10 * a + digit_val c) 0 s"

text \<open>The grammar of \<^verbatim>\<open>float()\<close>: a digit part is \<^verbatim>\<open>digit (["_"] digit)*\<close>.\<close>

fun digitpart :: "string \<Rightarrow> bool" where
  "digitpart [] = False"
| "digitpart [c] = is_digit c"
| "digitpart (c # d # cs) =
     (is_digit c \<and> (if d = CHR ''_'' then digitpart cs else digitpart (d # cs)))"

definition strip_us :: "string \<Rightarrow> string" where
  "strip_us s = filter (\<lambda>c. c \<noteq> CHR ''_'') s"

text \<open>\<^verbatim>\<open>number ::= [digitpart] "." digitpart | digitpart ["."]\<close>\<close>

definition parse_mantissa :: "string \<Rightarrow> rat option" where
  "parse_mantissa m =
     (let ip = takeWhile (\<lambda>c. c \<noteq> CHR ''.'') m;
          rest = dropWhile (\<lambda>c. c \<noteq> CHR ''.'') m
      in if rest = [] then
           (if digitpart ip then Some (of_nat (digits_val (strip_us ip))) else None)
         else
           (let fp = tl rest
            in if (ip = [] \<or> digitpart ip) \<and> (fp = [] \<or> digitpart fp) \<and> \<not> (ip = [] \<and> fp = [])
               then Some (of_nat (digits_val (strip_us ip))
                          + of_nat (digits_val (strip_us fp)) / 10 ^ length (strip_us fp))
               else None))"

text \<open>\<^verbatim>\<open>exponent ::= ("e" | "E") [sign] digitpart\<close>, here without the letter.\<close>

definition parse_exponent :: "string \<Rightarrow> (bool \<times> nat) option" where
  "parse_exponent e =
     (let neg = (e \<noteq> [] \<and> hd e = CHR ''-'');
          body = (if e \<noteq> [] \<and> (hd e = CHR ''+'' \<or> hd e = CHR ''-'') then tl e else e)
      in if digitpart body then Some (neg, digits_val (strip_us body)) else None)"

definition parse_number :: "string \<Rightarrow> rat option" where
  "parse_number b =
     (let m = takeWhile (\<lambda>c. c \<noteq> CHR ''e'' \<and> c \<noteq> CHR ''E'') b;
          rest = dropWhile (\<lambda>c. c \<noteq> CHR ''e'' \<and> c \<noteq> CHR ''E'') b
      in case parse_mantissa m of
           None \<Rightarrow> None
         | Some q \<Rightarrow>
             (if rest = [] then Some q
              else case parse_exponent (tl rest) of
                     None \<Rightarrow> None
                   | Some (neg, ex) \<Rightarrow> Some (if neg then q / 10 ^ ex else q * 10 ^ ex)))"

text \<open>
  \<^verbatim>\<open>float(s)\<close> for a string: surrounding white space is dropped, then an optional sign and
  either \<^verbatim>\<open>inf\<close>, \<^verbatim>\<open>infinity\<close>, \<^verbatim>\<open>nan\<close> in any case or a decimal number. Anything else
  raises \<^verbatim>\<open>ValueError\<close>; no other exception is raised.
\<close>

definition py_float :: "string \<Rightarrow> exn + pyfloat" where
  "py_float s0 =
     (let s = float_strip s0;
          neg = (s \<noteq> [] \<and> hd s = CHR ''-'');
          body = (if s \<noteq> [] \<and> (hd s = CHR ''+'' \<or> hd s = CHR ''-'') then tl s else s);
          lo = lower body
      in if lo = ''inf'' \<or> lo = ''infinity'' then Inr (if neg then NInf else PInf)
         else if lo = ''nan'' then Inr NaN
         else case parse_number body of
                None \<Rightarrow> Inl ValueError
              | Some q \<Rightarrow> Inr (Fin (if neg then - q else q)))"

text \<open>\<^verbatim>\<open>str(n)\<close> for an integer.\<close>

definition digit_char :: "nat \<Rightarrow> char" where
  "digit_char d = ''0123456789'' ! d"

fun str_nat :: "nat \<Rightarrow> string" where
  "str_nat n = (if n < 10 then [digit_char n] else str_nat (n div 10) @ [digit_char (n mod 10)])"

declare str_nat.simps [simp del]

definition str_int :: "int \<Rightarrow> string" where
  "str_int i = (if i < 0 then ''-'' @ str_nat (nat (- i)) else str_nat (nat i))"

text \<open>
  \<^verbatim>\<open>f"{v:.6f}"\<close> for a finite value: the value rounded to six decimals (ties to even), the
  sign kept even when the digits are all zero.
\<close>

definition round_half_even :: "rat \<Rightarrow> int" where
  "round_half_even r =
     (let f = \<lfloor>r\<rfloor>; d = r - of_int f
      in if d < 1 / 2 then f else if 1 / 2 < d then f + 1 else if even f then f else f + 1)"

definition zfill :: "nat \<Rightarrow> string \<Rightarrow> string" where
  "zfill w s = replicate (w - length s) (CHR ''0'') @ s"

definition fmt_6f :: "rat \<Rightarrow> string" where
  "fmt_6f v =
     (let n = nat (round_half_even (\<bar>v\<bar> * 10 ^ 6))
      in (if v < 0 then ''-'' else [])
         @ str_nat (n div 10 ^ 6) @ ''.'' @ zfill 6 (str_nat (n mod 10 ^ 6)))"

fun py_fmt_6f :: "pyfloat \<Rightarrow> string" where
  "py_fmt_6f (Fin q) = fmt_6f q"
| "py_fmt_6f PInf = ''inf''"
| "py_fmt_6f NInf = ''-inf''"
| "py_fmt_6f NaN = ''nan''"

section \<open>The helpers of the generator\<close>

text \<open>
  The body of the \<^verbatim>\<open>try\<close> in \<^verbatim>\<open>fmt_number\<close> once \<^verbatim>\<open>v = float(s)\<close> has a value:
  \<^verbatim>\<open>int(v)\<close> is evaluated first and raises on the special values.
\<close>

definition fmt_value :: "pyfloat \<Rightarrow> exn + string" where
  "fmt_value v =
     (case py_int v of
        Inl e \<Rightarrow> Inl e
      | Inr i \<Rightarrow>
          (if py_less (py_abs (py_sub v (Fin (of_int i)))) (Fin (1 / 10 ^ 9))
           then Inr (str_int i)
           else Inr (rstrip_ch (CHR ''.'') (rstrip_ch (CHR ''0'') (py_fmt_6f v)))))"

text \<open>The \<^verbatim>\<open>try ... except ValueError: return ""\<close> around it.\<close>

definition fmt_try :: "exn + pyfloat \<Rightarrow> exn + string" where
  "fmt_try r =
     (case r of
        Inl e \<Rightarrow> (if e = ValueError then Inr [] else Inl e)
      | Inr v \<Rightarrow>
          (case fmt_value v of
             Inl e \<Rightarrow> (if e = ValueError then Inr [] else Inl e)
           | Inr t \<Rightarrow> Inr t))"

definition fmt_number :: "string \<Rightarrow> exn + string" where
  "fmt_number s0 = (let s = strip s0 in if s = [] then Inr [] else fmt_try (py_float s))"

text \<open>
  \<^verbatim>\<open>fmt_number(str(v))\<close> for a float \<open>v\<close>: \<^verbatim>\<open>str(v)\<close> is never blank and \<^verbatim>\<open>float\<close> reads it
  back as \<open>v\<close>, so the \<^verbatim>\<open>try\<close> runs on \<open>v\<close> itself.
\<close>

definition fmt_number_str :: "pyfloat \<Rightarrow> exn + string" where
  "fmt_number_str v = fmt_try (Inr v)"

text \<open>\<^verbatim>\<open>parse_float(s, default)\<close> catches every exception.\<close>

definition parse_float :: "string \<Rightarrow> pyfloat option \<Rightarrow> pyfloat option" where
  "parse_float s dflt = (case py_float s of Inr v \<Rightarrow> Some v | Inl _ \<Rightarrow> dflt)"

text \<open>
  The token loop of \<^verbatim>\<open>parse_g1_xy\<close>. \<open>Inr None\<close> is the early \<^verbatim>\<open>return None\<close> of an
  \<^verbatim>\<open>except ValueError\<close>; any other exception leaves the function.
\<close>

fun scan_tokens ::
  "string list \<Rightarrow> pyfloat option \<Rightarrow> pyfloat option
     \<Rightarrow> exn + (pyfloat option \<times> pyfloat option) option" where
  "scan_tokens [] x_val y_val = Inr (Some (x_val, y_val))"
| "scan_tokens (token # rest) x_val y_val =
     (let t = upper token
      in if startswith t ''X'' then
           (case py_float (drop 1 token) of
              Inr v \<Rightarrow> scan_tokens rest (Some v) y_val
            | Inl e \<Rightarrow> (if e = ValueError then Inr None else Inl e))
         else if startswith t ''Y'' then
           (case py_float (drop 1 token) of
              Inr v \<Rightarrow> scan_tokens rest x_val (Some v)
            | Inl e \<Rightarrow> (if e = ValueError then Inr None else Inl e))
         else scan_tokens rest x_val y_val)"

definition parse_g1_xy :: "string \<Rightarrow> exn + (pyfloat \<times> pyfloat) option" where
  "parse_g1_xy line0 =
     (let line = strip (cut_at (CHR ''#'') (cut_at (CHR '';'') line0))
      in if line = [] then Inr None
         else let U = upper line
              in if startswith U ''M3'' \<or> startswith U ''M5'' then Inr None
                 else case scan_tokens (split_ws (replace_comma line)) None None of
                        Inl e \<Rightarrow> Inl e
                      | Inr None \<Rightarrow> Inr None
                      | Inr (Some (x_val, y_val)) \<Rightarrow>
                          (case (x_val, y_val) of
                             (Some x, Some y) \<Rightarrow> Inr (Some (x, y))
                           | _ \<Rightarrow> Inr None))"

text \<open>\<^verbatim>\<open>_eq(a, b)\<close> with the tolerance \<^verbatim>\<open>TOL = 1e-9\<close>.\<close>

definition TOL :: "pyfloat" where
  "TOL = Fin (1 / 10 ^ 9)"

definition py_eq :: "pyfloat \<Rightarrow> pyfloat \<Rightarrow> bool" where
  "py_eq a b = py_le (py_abs (py_sub a b)) TOL"

section \<open>The document and its snapshot\<close>

text \<open>
  The two globals of the program. The list box of the window mirrors \<open>gcode_lines\<close> entry by
  entry and the plot is drawn from it; neither is part of the state.
\<close>

record state =
  gcode_lines :: "string list"
  last_snapshot :: "string list option"

definition snapshot :: "state \<Rightarrow> state" where
  "snapshot st = st\<lparr>last_snapshot := Some (gcode_lines st)\<rparr>"

definition restore_snapshot :: "state \<Rightarrow> state" where
  "restore_snapshot st =
     (case last_snapshot st of
        None \<Rightarrow> st
      | Some ls \<Rightarrow> st\<lparr>gcode_lines := ls\<rparr>)"

subsection \<open>Appending with the merge rule\<close>

definition new_text :: "string \<Rightarrow> string \<Rightarrow> string" where
  "new_text fx fy = ''G1 X'' @ fx @ '' Y'' @ fy"

text \<open>
  \<open>add_or_merge_line\<close> builds the text first, so an exception of \<open>fmt_number\<close> leaves the
  lines as they were.
\<close>

definition add_or_merge_line :: "pyfloat \<Rightarrow> pyfloat \<Rightarrow> string list \<Rightarrow> exn + string list" where
  "add_or_merge_line xn yn ls =
     (case fmt_number_str xn of Inl e \<Rightarrow> Inl e | Inr fx \<Rightarrow>
     (case fmt_number_str yn of Inl e \<Rightarrow> Inl e | Inr fy \<Rightarrow>
     (case (if 1 \<le> length ls then parse_g1_xy (ls ! (length ls - 1)) else Inr None) of
        Inl e \<Rightarrow> Inl e | Inr last_xy \<Rightarrow>
     (case (if 2 \<le> length ls then parse_g1_xy (ls ! (length ls - 2)) else Inr None) of
        Inl e \<Rightarrow> Inl e | Inr prev_xy \<Rightarrow>
     (case (last_xy, prev_xy) of
        (Some (lx, ly), Some (px, py)) \<Rightarrow>
          if py_eq ly yn \<and> py_eq py yn then Inr (ls[length ls - 1 := new_text fx fy])
          else if py_eq lx xn \<and> py_eq px xn then Inr (ls[length ls - 1 := new_text fx fy])
          else Inr (ls @ [new_text fx fy])
      | _ \<Rightarrow> Inr (ls @ [new_text fx fy]))))))"

text \<open>
  A \<^verbatim>\<open>for\<close> loop of appends. When one of them raises, the loop is left with the lines
  appended so far.
\<close>

fun add_all :: "(pyfloat \<times> pyfloat) list \<Rightarrow> string list \<Rightarrow> exn option \<times> string list" where
  "add_all [] ls = (None, ls)"
| "add_all ((xn, yn) # ms) ls =
     (case add_or_merge_line xn yn ls of
        Inl e \<Rightarrow> (Some e, ls)
      | Inr ls' \<Rightarrow> add_all ms ls')"

subsection \<open>Actions\<close>

datatype notice =
  MissingValues | NothingToLoop | NoLimits | ParseError string | NothingToSave | NoXYFound

datatype outcome = Done | Looped nat | Imported nat nat | Warned notice | Raised exn

definition submit_line :: "string \<Rightarrow> string \<Rightarrow> state \<Rightarrow> outcome \<times> state" where
  "submit_line x_in y_in st =
     (case fmt_number x_in of Inl e \<Rightarrow> (Raised e, st) | Inr x_txt \<Rightarrow>
     (case fmt_number y_in of Inl e \<Rightarrow> (Raised e, st) | Inr y_txt \<Rightarrow>
        if x_txt = [] \<or> y_txt = [] then (Warned MissingValues, st)
        else let st1 = snapshot st
             in (case py_float x_txt of Inl e \<Rightarrow> (Raised e, st1) | Inr xn \<Rightarrow>
                (case py_float y_txt of Inl e \<Rightarrow> (Raised e, st1) | Inr yn \<Rightarrow>
                (case add_or_merge_line xn yn (gcode_lines st1) of
                   Inl e \<Rightarrow> (Raised e, st1)
                 | Inr ls \<Rightarrow> (Done, st1\<lparr>gcode_lines := ls\<rparr>))))))"

definition undo_last :: "state \<Rightarrow> state" where
  "undo_last st = restore_snapshot st"

text \<open>\<^verbatim>\<open>del gcode_lines[idx]\<close> for each index, highest first.\<close>

fun del_all :: "nat list \<Rightarrow> string list \<Rightarrow> exn option \<times> string list" where
  "del_all [] ls = (None, ls)"
| "del_all (idx # rest) ls =
     (if idx < length ls then del_all rest (take idx ls @ drop (Suc idx) ls)
      else (Some IndexError, ls))"

definition remove_selected :: "nat list \<Rightarrow> state \<Rightarrow> outcome \<times> state" where
  "remove_selected sel st =
     (if sel = [] then (Done, st)
      else let st1 = snapshot st
           in (case del_all (rev sel) (gcode_lines st1) of
                 (Some e, ls) \<Rightarrow> (Raised e, st1\<lparr>gcode_lines := ls\<rparr>)
               | (None, ls) \<Rightarrow> (Done, st1\<lparr>gcode_lines := ls\<rparr>)))"

text \<open>The answer to the confirmation dialog is the argument \<open>yes\<close>.\<close>

definition clear_all_lines :: "bool \<Rightarrow> state \<Rightarrow> state" where
  "clear_all_lines yes st =
     (if gcode_lines st = [] then st
      else if \<not> yes then st
      else (snapshot st)\<lparr>gcode_lines := []\<rparr>)"

text \<open>
  \<open>save_gcode\<close> up to the list \<^verbatim>\<open>lines_to_save\<close>; choosing the file and writing it are
  left to the window.
\<close>

definition save_gcode :: "state \<Rightarrow> notice + string list" where
  "save_gcode st =
     (if gcode_lines st = [] then Inl NothingToSave
      else let first = hd (gcode_lines st);
               first' = (if \<not> contains '' F'' first \<and> \<not> contains [CHR 0x09, CHR ''F''] first
                         then first @ '' F200'' else first)
           in Inr ([''M3'', first'] @ tl (gcode_lines st) @ [''M5'']))"

text \<open>The parse loop of \<open>load_gcode\<close>: the moves found and the number of lines skipped.\<close>

fun parse_all :: "string list \<Rightarrow> exn + ((pyfloat \<times> pyfloat) list \<times> nat)" where
  "parse_all [] = Inr ([], 0)"
| "parse_all (raw # rest) =
     (case parse_g1_xy raw of
        Inl e \<Rightarrow> Inl e
      | Inr xy \<Rightarrow>
          (case parse_all rest of
             Inl e \<Rightarrow> Inl e
           | Inr (parsed, skipped) \<Rightarrow>
               (case xy of
                  None \<Rightarrow> Inr (parsed, skipped + 1)
                | Some p \<Rightarrow> Inr (p # parsed, skipped))))"

text \<open>
  \<open>load_gcode\<close> from the lines read from the file; \<open>do_replace\<close> is the answer to the
  replace-or-append dialog.
\<close>

definition load_gcode :: "string list \<Rightarrow> bool \<Rightarrow> state \<Rightarrow> outcome \<times> state" where
  "load_gcode raw_lines do_replace st =
     (case parse_all raw_lines of
        Inl e \<Rightarrow> (Raised e, st)
      | Inr (parsed, skipped) \<Rightarrow>
          if parsed = [] then (Warned NoXYFound, st)
          else let st1 = snapshot st;
                   st2 = (if do_replace then st1\<lparr>gcode_lines := []\<rparr> else st1)
               in (case add_all parsed (gcode_lines st2) of
                     (Some e, ls) \<Rightarrow> (Raised e, st2\<lparr>gcode_lines := ls\<rparr>)
                   | (None, ls) \<Rightarrow>
                       (Imported (length parsed) skipped, st2\<lparr>gcode_lines := ls\<rparr>)))"

subsection \<open>The loop builder\<close>

text \<open>
  The inner \<^verbatim>\<open>for\<close> loop of \<open>loop_block\<close> for one \<open>k\<close>: it returns the flag \<^verbatim>\<open>violates\<close> and
  \<^verbatim>\<open>next_group\<close> as they are when the loop is left. The counter \<open>k\<close> is a Python integer
  that starts at \<open>1\<close> and only grows.
\<close>

fun group_for ::
  "pyfloat \<Rightarrow> pyfloat \<Rightarrow> pyfloat option \<Rightarrow> pyfloat option \<Rightarrow> nat
     \<Rightarrow> (pyfloat \<times> pyfloat) list \<Rightarrow> (pyfloat \<times> pyfloat) list
     \<Rightarrow> bool \<times> (pyfloat \<times> pyfloat) list" where
  "group_for dx dy max_x max_y k [] next_group = (False, next_group)"
| "group_for dx dy max_x max_y k ((x0, y0) # rest) next_group =
     (let xn = py_add x0 (py_mul dx (Fin (of_nat k)));
          yn = py_add y0 (py_mul dy (Fin (of_nat k)))
      in if (case max_x of None \<Rightarrow> False | Some mx \<Rightarrow> py_gt xn mx) then (True, next_group)
         else if (case max_y of None \<Rightarrow> False | Some my \<Rightarrow> py_gt yn my) then (True, next_group)
         else group_for dx dy max_x max_y k rest (next_group @ [(xn, yn)]))"

text \<open>
  The \<^verbatim>\<open>while True\<close> loop. It may run forever, so it is a partial function: \<open>None\<close> is
  "does not return". A result is the exception that ended it (if any), the counter
  \<^verbatim>\<open>appended\<close> and the lines.
\<close>

partial_function (option) loop_while ::
  "pyfloat \<Rightarrow> pyfloat \<Rightarrow> pyfloat option \<Rightarrow> pyfloat option \<Rightarrow> (pyfloat \<times> pyfloat) list
     \<Rightarrow> nat \<Rightarrow> nat \<Rightarrow> string list \<Rightarrow> (exn option \<times> nat \<times> string list) option" where
  "loop_while dx dy max_x max_y base_block k appended ls =
     (case group_for dx dy max_x max_y k base_block [] of
        (violates, next_group) \<Rightarrow>
          if violates \<or> next_group = [] then Some (None, appended, ls)
          else (case add_all next_group ls of
                  (Some e, ls') \<Rightarrow> Some (Some e, appended, ls')
                | (None, ls') \<Rightarrow>
                    loop_while dx dy max_x max_y base_block (k + 1) (appended + 1) ls'))"

text \<open>The base block: every line parsed, or the first line that does not parse.\<close>

fun base_of :: "string list \<Rightarrow> exn + (string + (pyfloat \<times> pyfloat) list)" where
  "base_of [] = Inr (Inr [])"
| "base_of (line # rest) =
     (case parse_g1_xy line of
        Inl e \<Rightarrow> Inl e
      | Inr None \<Rightarrow> Inr (Inl line)
      | Inr (Some xy) \<Rightarrow>
          (case base_of rest of
             Inl e \<Rightarrow> Inl e
           | Inr (Inl bad) \<Rightarrow> Inr (Inl bad)
           | Inr (Inr base_block) \<Rightarrow> Inr (Inr (xy # base_block))))"

text \<open>
  \<open>loop_block\<close> from the four entry fields of the loop builder. The result \<open>None\<close> means
  that the action does not return.
\<close>

definition loop_block ::
  "string \<Rightarrow> string \<Rightarrow> string \<Rightarrow> string \<Rightarrow> state \<Rightarrow> (outcome \<times> state) option" where
  "loop_block max_x_txt max_y_txt dx_txt dy_txt st =
     (if gcode_lines st = [] then Some (Warned NothingToLoop, st)
      else let max_x = parse_float max_x_txt None;
               max_y = parse_float max_y_txt None;
               dx = (case parse_float dx_txt (Some (Fin 0)) of Some v \<Rightarrow> v | None \<Rightarrow> Fin 0);
               dy = (case parse_float dy_txt (Some (Fin 0)) of Some v \<Rightarrow> v | None \<Rightarrow> Fin 0)
           in if max_x = None \<and> max_y = None then Some (Warned NoLimits, st)
              else (case base_of (gcode_lines st) of
                      Inl e \<Rightarrow> Some (Raised e, st)
                    | Inr (Inl bad) \<Rightarrow> Some (Warned (ParseError bad), st)
                    | Inr (Inr base_block) \<Rightarrow>
                        (let st1 = snapshot st
                         in (case loop_while dx dy max_x max_y base_block 1 0 (gcode_lines st1) of
                               None \<Rightarrow> None
                             | Some (Some e, appended, ls) \<Rightarrow>
                                 Some (Raised e, st1\<lparr>gcode_lines := ls\<rparr>)
                             | Some (None, appended, ls) \<Rightarrow>
                                 Some (Looped appended, st1\<lparr>gcode_lines := ls\<rparr>)))))"

section \<open>The specification's notions\<close>

text \<open>
  The following definitions are not taken from the program: they phrase what the
  specification says, for comparison with the program's functions above.
\<close>

subsection \<open>Runs at the end of the document\<close>



subsection \<open>Offset groups\<close>





subsection \<open>The parser, as the specification words it\<close>

text \<open>Everything from the first \<open>;\<close> or \<open>#\<close> onward is dropped, then the line is trimmed.\<close>

definition spec_clean :: "string \<Rightarrow> string" where
  "spec_clean line = strip (takeWhile (\<lambda>c. c \<noteq> CHR '';'' \<and> c \<noteq> CHR ''#'') line)"

text \<open>Tokens: the maximal runs of characters that are neither white space nor commas.\<close>

fun spec_tokens_acc :: "string \<Rightarrow> string \<Rightarrow> string list" where
  "spec_tokens_acc cur [] = (if cur = [] then [] else [cur])"
| "spec_tokens_acc cur (c # cs) =
     (if is_space c \<or> c = CHR '','' then
        (if cur = [] then spec_tokens_acc [] cs else cur # spec_tokens_acc [] cs)
      else spec_tokens_acc (cur @ [c]) cs)"

definition spec_tokens :: "string \<Rightarrow> string list" where
  "spec_tokens s = spec_tokens_acc [] s"

definition is_x_token :: "string \<Rightarrow> bool" where
  "is_x_token t = (t \<noteq> [] \<and> (hd t = CHR ''X'' \<or> hd t = CHR ''x''))"

definition is_y_token :: "string \<Rightarrow> bool" where
  "is_y_token t = (t \<noteq> [] \<and> (hd t = CHR ''Y'' \<or> hd t = CHR ''y''))"

text \<open>The remainder of a token after its letter is a number that \<^verbatim>\<open>float()\<close> reads.\<close>

definition well_formed :: "string \<Rightarrow> bool" where
  "well_formed t = (case py_float (tl t) of Inr _ \<Rightarrow> True | Inl _ \<Rightarrow> False)"

definition is_spindle :: "string \<Rightarrow> bool" where
  "is_spindle l = (take 2 l \<in> set [''M3'', ''m3'', ''M5'', ''m5''])"

definition spec_parses :: "string \<Rightarrow> bool" where
  "spec_parses line =
     (let l = spec_clean line; toks = spec_tokens l
      in \<not> is_spindle l \<and>
         (\<exists>t \<in> set toks. is_x_token t) \<and> (\<exists>t \<in> set toks. is_y_token t) \<and>
         (\<forall>t \<in> set toks. is_x_token t \<or> is_y_token t \<longrightarrow> well_formed t))"

subsection \<open>The feed field\<close>

text \<open>A record has a feed field when an \<open>F\<close> follows a blank or a tab.\<close>

definition has_feed :: "string \<Rightarrow> bool" where
  "has_feed r =
     (\<exists>i \<in> {0 ..< length r - 1}. (r ! i = CHR '' '' \<or> r ! i = CHR 0x09) \<and> r ! Suc i = CHR ''F'')"

text \<open>The same with any white space before the \<open>F\<close>.\<close>

definition has_feed_ws :: "string \<Rightarrow> bool" where
  "has_feed_ws r = (\<exists>i \<in> {0 ..< length r - 1}. is_space (r ! i) \<and> r ! Suc i = CHR ''F'')"

subsection \<open>Example documents\<close>

definition five :: state where
  "five = \<lparr>gcode_lines = [''G1 X0 Y0'', ''G1 X5 Y0'', ''G1 X5 Y5'', ''G1 X0 Y5'', ''G1 X0 Y1''],
            last_snapshot = None\<rparr>"

section \<open>Proofs\<close>

subsection \<open>The parser never raises\<close>

lemma py_float_exn: "py_float s = Inl e \<Longrightarrow> e = ValueError"
  by (auto simp: py_float_def Let_def split: if_splits option.splits)

lemma scan_tokens_total: "\<exists>r. scan_tokens ts x y = Inr r"
proof (induction ts arbitrary: x y)
  case Nil
  show ?case by simp
next
  case (Cons t ts)
  show ?case
  proof (cases "py_float (drop 1 t)")
    case (Inl e)
    then have "e = ValueError" by (rule py_float_exn)
    with Inl show ?thesis by (simp add: Let_def Cons.IH)
  next
    case (Inr v)
    then show ?thesis by (simp add: Let_def Cons.IH)
  qed
qed

lemma parse_g1_xy_Inr: "\<exists>r. parse_g1_xy line = Inr r"
proof -
  obtain r where "scan_tokens (split_ws (replace_comma (strip (cut_at (CHR ''#'') (cut_at (CHR '';'') line))))) None None = Inr r"
    using scan_tokens_total by blast
  then show ?thesis
    by (cases r) (auto simp: parse_g1_xy_def Let_def split: option.splits)
qed

text \<open>
  Claim C6. For every text line \<open>parse_g1_xy\<close> returns a value, a move or none: no
  exception leaves it. The only exception \<^verbatim>\<open>float()\<close> raises on a string is
  \<^verbatim>\<open>ValueError\<close>, and both conversions are inside \<^verbatim>\<open>except ValueError\<close>.
\<close>

theorem parse_g1_xy_total: "\<exists>r. parse_g1_xy line = Inr r"
  by (rule parse_g1_xy_Inr)

theorem parse_g1_xy_total_witness:
  "parse_g1_xy [] = Inr None \<and> parse_g1_xy ''; comment only'' = Inr None
   \<and> parse_g1_xy ''M3'' = Inr None \<and> parse_g1_xy ''G1 X1..2 Y3'' = Inr None
   \<and> parse_g1_xy ''G1 X1.5 Y-2'' = Inr (Some (Fin (3 / 2), Fin (- 2)))"
proof -
  have ev: "parse_g1_xy [] = Inr None \<and> parse_g1_xy ''; comment only'' = Inr None
   \<and> parse_g1_xy ''M3'' = Inr None \<and> parse_g1_xy ''G1 X1..2 Y3'' = Inr None
   \<and> parse_g1_xy ''G1 X1.5 Y-2'' = Inr (Some (Fin (3 / 2), Fin (- 2)))"
    by code_simp
  from parse_g1_xy_total [of "''G1 X1..2 Y3''"] ev show ?thesis by simp
qed

subsection \<open>Substrings and the feed field\<close>

lemma contains2:
  "contains [a, b] s \<longleftrightarrow> (\<exists>i. Suc i < length s \<and> s ! i = a \<and> s ! Suc i = b)"
proof (induction s)
  case Nil
  show ?case by simp
next
  case (Cons c cs)
  have "startswith (c # cs) [a, b] \<longleftrightarrow> (Suc 0 < length (c # cs) \<and> (c # cs) ! 0 = a \<and> (c # cs) ! Suc 0 = b)"
    by (cases cs) (auto simp: startswith_def)
  moreover have "(\<exists>i. Suc i < length (c # cs) \<and> (c # cs) ! i = a \<and> (c # cs) ! Suc i = b)
      \<longleftrightarrow> (Suc 0 < length (c # cs) \<and> (c # cs) ! 0 = a \<and> (c # cs) ! Suc 0 = b)
         \<or> (\<exists>i. Suc i < length cs \<and> cs ! i = a \<and> cs ! Suc i = b)"
    (is "?L \<longleftrightarrow> ?A \<or> ?B")
  proof
    assume ?L
    then obtain i where i: "Suc i < length (c # cs)" "(c # cs) ! i = a" "(c # cs) ! Suc i = b" by blast
    show "?A \<or> ?B"
    proof (cases i)
      case 0
      with i show ?thesis by simp
    next
      case (Suc j)
      with i have "Suc j < length cs \<and> cs ! j = a \<and> cs ! Suc j = b" by simp
      then show ?thesis by blast
    qed
  next
    assume "?A \<or> ?B"
    then show ?L
    proof
      assume ?A then show ?L by blast
    next
      assume ?B
      then obtain j where "Suc j < length cs" "cs ! j = a" "cs ! Suc j = b" by blast
      then have "Suc (Suc j) < length (c # cs) \<and> (c # cs) ! Suc j = a \<and> (c # cs) ! Suc (Suc j) = b" by simp
      then show ?L by blast
    qed
  qed
  ultimately show ?case using Cons.IH by simp
qed

lemma has_feed_contains:
  "has_feed r \<longleftrightarrow> contains '' F'' r \<or> contains [CHR 0x09, CHR ''F''] r"
proof -
  have "has_feed r \<longleftrightarrow> (\<exists>i. Suc i < length r \<and> (r ! i = CHR '' '' \<or> r ! i = CHR 0x09) \<and> r ! Suc i = CHR ''F'')"
    unfolding has_feed_def by (auto simp: less_diff_conv)
  then show ?thesis unfolding contains2 by blast
qed

subsection \<open>The merge rule\<close>

lemma fmt_value_Fin: "\<exists>t. fmt_value (Fin q) = Inr t"
  by (simp add: fmt_value_def)








subsection \<open>Snapshot and undo\<close>

lemma submit_line_snapshot:
  "gcode_lines (snd (submit_line x y st)) \<noteq> gcode_lines st
     \<Longrightarrow> last_snapshot (snd (submit_line x y st)) = Some (gcode_lines st)"
  by (auto simp: submit_line_def snapshot_def Let_def split: sum.splits if_splits)

lemma remove_selected_snapshot:
  "gcode_lines (snd (remove_selected sel st)) \<noteq> gcode_lines st
     \<Longrightarrow> last_snapshot (snd (remove_selected sel st)) = Some (gcode_lines st)"
  by (auto simp: remove_selected_def snapshot_def Let_def split: prod.splits option.splits if_splits)

lemma clear_all_lines_snapshot:
  "gcode_lines (clear_all_lines yes st) \<noteq> gcode_lines st
     \<Longrightarrow> last_snapshot (clear_all_lines yes st) = Some (gcode_lines st)"
  by (auto simp: clear_all_lines_def snapshot_def split: if_splits)

lemma load_gcode_snapshot:
  "gcode_lines (snd (load_gcode raw rep st)) \<noteq> gcode_lines st
     \<Longrightarrow> last_snapshot (snd (load_gcode raw rep st)) = Some (gcode_lines st)"
  by (auto simp: load_gcode_def snapshot_def Let_def split: sum.splits prod.splits option.splits if_splits)

lemma loop_block_snapshot:
  "loop_block mx my dx dy st = Some (r, st') \<Longrightarrow> gcode_lines st' \<noteq> gcode_lines st
     \<Longrightarrow> last_snapshot st' = Some (gcode_lines st)"
  by (auto simp: loop_block_def snapshot_def Let_def split: sum.splits prod.splits option.splits if_splits)

lemma undo_last_cases:
  "undo_last st = (case last_snapshot st of None \<Rightarrow> st | Some ls \<Rightarrow> st\<lparr>gcode_lines := ls\<rparr>)"
  by (simp add: undo_last_def restore_snapshot_def)

text \<open>
  Claim C9, as the program has it. One snapshot is kept, not a stack: whenever submit,
  remove, clear, import or loop changes the records, the snapshot holds the records from
  before that operation. Undo with no snapshot changes nothing; undo with a snapshot
  copies it into the document and keeps it stored. Undo after clearing a document with
  records gives back the records in order, and a second undo with no operation in between
  changes nothing.
\<close>

theorem single_level_undo:
  "(gcode_lines (snd (submit_line x y st)) \<noteq> gcode_lines st
      \<longrightarrow> last_snapshot (snd (submit_line x y st)) = Some (gcode_lines st))
   \<and> (gcode_lines (snd (remove_selected sel st)) \<noteq> gcode_lines st
      \<longrightarrow> last_snapshot (snd (remove_selected sel st)) = Some (gcode_lines st))
   \<and> (gcode_lines (clear_all_lines yes st) \<noteq> gcode_lines st
      \<longrightarrow> last_snapshot (clear_all_lines yes st) = Some (gcode_lines st))
   \<and> (gcode_lines (snd (load_gcode raw rep st)) \<noteq> gcode_lines st
      \<longrightarrow> last_snapshot (snd (load_gcode raw rep st)) = Some (gcode_lines st))
   \<and> (\<forall>r st'. loop_block mx my dx dy st = Some (r, st') \<and> gcode_lines st' \<noteq> gcode_lines st
      \<longrightarrow> last_snapshot st' = Some (gcode_lines st))
   \<and> (last_snapshot st = None \<longrightarrow> undo_last st = st)
   \<and> (\<forall>ls. last_snapshot st = Some ls
      \<longrightarrow> gcode_lines (undo_last st) = ls \<and> last_snapshot (undo_last st) = Some ls)
   \<and> (gcode_lines st \<noteq> []
      \<longrightarrow> gcode_lines (undo_last (clear_all_lines True st)) = gcode_lines st)
   \<and> undo_last (undo_last st) = undo_last st"
proof (intro conjI allI impI)
  show "undo_last (undo_last st) = undo_last st"
    by (simp add: undo_last_cases split: option.splits)
  assume "gcode_lines st \<noteq> []"
  then show "gcode_lines (undo_last (clear_all_lines True st)) = gcode_lines st"
    by (simp add: undo_last_cases clear_all_lines_def snapshot_def)
qed (auto simp: submit_line_snapshot remove_selected_snapshot clear_all_lines_snapshot
      load_gcode_snapshot loop_block_snapshot undo_last_cases)

theorem single_level_undo_witness:
  "gcode_lines five \<noteq> []
   \<and> gcode_lines (clear_all_lines True five) = []
   \<and> gcode_lines (undo_last (clear_all_lines True five))
       = [''G1 X0 Y0'', ''G1 X5 Y0'', ''G1 X5 Y5'', ''G1 X0 Y5'', ''G1 X0 Y1'']
   \<and> undo_last (undo_last (clear_all_lines True five)) = undo_last (clear_all_lines True five)
   \<and> last_snapshot five = None \<and> undo_last five = five"
  using single_level_undo [of x y five sel True raw rep mx my dx dy]
  by (simp add: five_def clear_all_lines_def snapshot_def undo_last_def restore_snapshot_def)

text \<open>
  The snapshot is not discarded by a restore: after clearing the five-record document and
  undoing, a snapshot is still stored.
\<close>

theorem restore_keeps_snapshot:
  "last_snapshot (undo_last (clear_all_lines True five)) \<noteq> None"
  by (simp add: five_def clear_all_lines_def snapshot_def undo_last_def restore_snapshot_def)

subsection \<open>Rejected operations leave the state alone\<close>

lemma submit_line_rejected:
  "fmt_number x_in = Inr [] \<or> fmt_number y_in = Inr []
     \<Longrightarrow> snd (submit_line x_in y_in st) = st \<and> fst (submit_line x_in y_in st) \<noteq> Done"
  by (auto simp: submit_line_def split: sum.splits)

lemma submit_line_atomic:
  "fst (submit_line x_in y_in st) \<noteq> Done
     \<Longrightarrow> gcode_lines (snd (submit_line x_in y_in st)) = gcode_lines st"
  by (auto simp: submit_line_def snapshot_def Let_def split: sum.splits if_splits)

lemma submit_line_done:
  "fst (submit_line x_in y_in st) = Done
     \<Longrightarrow> last_snapshot (snd (submit_line x_in y_in st)) = Some (gcode_lines st)
         \<and> (\<exists>xn yn. add_or_merge_line xn yn (gcode_lines st)
                       = Inr (gcode_lines (snd (submit_line x_in y_in st))))"
  by (auto simp: submit_line_def snapshot_def Let_def split: sum.splits if_splits)

lemma loop_block_no_limits:
  "parse_float mx None = None \<Longrightarrow> parse_float my None = None
     \<Longrightarrow> loop_block mx my dx dy st
           = Some (Warned (if gcode_lines st = [] then NothingToLoop else NoLimits), st)"
  by (simp add: loop_block_def)

lemma loop_block_empty:
  "gcode_lines st = [] \<Longrightarrow> loop_block mx my dx dy st = Some (Warned NothingToLoop, st)"
  by (simp add: loop_block_def)

lemma loop_block_warned:
  "loop_block mx my dx dy st = Some (Warned w, st') \<Longrightarrow> st' = st"
  by (auto simp: loop_block_def Let_def split: sum.splits prod.splits option.splits if_splits)

text \<open>
  What holds for submit and loop. A submit whose X or Y text has no canonical form is
  refused and leaves the whole state, records and snapshot, as it was; so does a loop with
  neither bound set or with no records, and every loop that ends with a warning. A submit
  is all or nothing: either the records are unchanged, or it is done, the snapshot holds
  the records from before and the records are those of one append.
\<close>

lemma rejected_unchanged:
  "(fmt_number x_in = Inr [] \<or> fmt_number y_in = Inr []
      \<longrightarrow> snd (submit_line x_in y_in st) = st \<and> fst (submit_line x_in y_in st) \<noteq> Done)
   \<and> (parse_float mx None = None \<and> parse_float my None = None
      \<longrightarrow> loop_block mx my dx dy st
            = Some (Warned (if gcode_lines st = [] then NothingToLoop else NoLimits), st))
   \<and> (gcode_lines st = [] \<longrightarrow> loop_block mx my dx dy st = Some (Warned NothingToLoop, st))
   \<and> (\<forall>w st'. loop_block mx my dx dy st = Some (Warned w, st') \<longrightarrow> st' = st)
   \<and> (fst (submit_line x_in y_in st) \<noteq> Done
      \<longrightarrow> gcode_lines (snd (submit_line x_in y_in st)) = gcode_lines st)
   \<and> (fst (submit_line x_in y_in st) = Done
      \<longrightarrow> last_snapshot (snd (submit_line x_in y_in st)) = Some (gcode_lines st)
          \<and> (\<exists>xn yn. add_or_merge_line xn yn (gcode_lines st)
                        = Inr (gcode_lines (snd (submit_line x_in y_in st)))))"
  using submit_line_rejected [of x_in y_in st] submit_line_atomic [of x_in y_in st]
    submit_line_done [of x_in y_in st] loop_block_no_limits [of mx my dx dy st]
    loop_block_empty [of st mx my dx dy] loop_block_warned [of mx my dx dy st]
  by blast

lemma rejected_unchanged_examples:
  "fmt_number ''1,5'' = Inr []
   \<and> submit_line ''1,5'' ''2'' five = (Warned MissingValues, five)
   \<and> parse_float ''none'' None = None \<and> parse_float [] None = None
   \<and> loop_block ''none'' [] ''2.25'' ''0'' five = Some (Warned NoLimits, five)
   \<and> loop_block ''82'' [] ''2.25'' ''0'' \<lparr>gcode_lines = [], last_snapshot = Some [''G1 X1 Y1'']\<rparr>
       = Some (Warned NothingToLoop, \<lparr>gcode_lines = [], last_snapshot = Some [''G1 X1 Y1'']\<rparr>)
   \<and> fst (submit_line ''1.5'' ''2'' five) = Done
   \<and> snd (submit_line ''1.5'' ''2'' five)
       = \<lparr>gcode_lines = [''G1 X0 Y0'', ''G1 X5 Y0'', ''G1 X5 Y5'', ''G1 X0 Y5'', ''G1 X0 Y1'', ''G1 X1.5 Y2''],
          last_snapshot = Some (gcode_lines five)\<rparr>"
proof -
  have a: "fmt_number ''1,5'' = Inr []" by code_simp
  have b: "parse_float ''none'' None = None" by code_simp
  have c: "parse_float [] None = None" by code_simp
  have d: "submit_line ''1.5'' ''2'' five
       = (Done, \<lparr>gcode_lines = [''G1 X0 Y0'', ''G1 X5 Y0'', ''G1 X5 Y5'', ''G1 X0 Y5'', ''G1 X0 Y1'', ''G1 X1.5 Y2''],
          last_snapshot = Some (gcode_lines five)\<rparr>)" by code_simp
  have e: "fst (submit_line ''1,5'' ''2'' five) = Warned MissingValues" by code_simp
  have f: "gcode_lines five \<noteq> []" by (simp add: five_def)
  from rejected_unchanged [of "''1,5''" "''2''" five "''none''" "[]" "''2.25''" "''0''"] a b c e f
  have g: "submit_line ''1,5'' ''2'' five = (Warned MissingValues, five)"
    and h: "loop_block ''none'' [] ''2.25'' ''0'' five = Some (Warned NoLimits, five)"
    by (simp_all add: prod_eq_iff)
  from rejected_unchanged [of x y "\<lparr>gcode_lines = [], last_snapshot = Some [''G1 X1 Y1'']\<rparr>" "''82''" "[]" "''2.25''" "''0''"]
  have i: "loop_block ''82'' [] ''2.25'' ''0'' \<lparr>gcode_lines = [], last_snapshot = Some [''G1 X1 Y1'']\<rparr>
       = Some (Warned NothingToLoop, \<lparr>gcode_lines = [], last_snapshot = Some [''G1 X1 Y1'']\<rparr>)"
    by simp
  from a b c d g h i show ?thesis by simp
qed

text \<open>
  Claim C4 at the input that breaks it. An import is not all or nothing. Both lines of the
  file below are accepted by the parser, the second with the coordinate \<^verbatim>\<open>inf\<close>. The
  import takes its snapshot, clears the five records, appends the first move, and is then
  left by the \<^verbatim>\<open>OverflowError\<close> of \<^verbatim>\<open>int(inf)\<close> in \<open>fmt_number\<close>: the document holds one of
  the two moves. The submit path refuses the same coordinate before it touches anything.
\<close>

theorem import_inf_partial:
  "parse_all [''G1 X1 Y1'', ''G1 Xinf Y0''] = Inr ([(Fin 1, Fin 1), (PInf, Fin 0)], 0)
   \<and> load_gcode [''G1 X1 Y1'', ''G1 Xinf Y0''] True five
       = (Raised OverflowError,
          \<lparr>gcode_lines = [''G1 X1 Y1''], last_snapshot = Some (gcode_lines five)\<rparr>)
   \<and> submit_line ''inf'' ''0'' five = (Raised OverflowError, five)"
  by code_simp

subsection \<open>A record that does not parse\<close>

text \<open>
  Claim C10 at the input that breaks it. Importing the line \<open>G1 Xnan Y0\<close> into the
  five-record document stores the record \<open>G1 X Y0\<close>: \<open>fmt_number\<close> turns the
  \<^verbatim>\<open>ValueError\<close> of \<^verbatim>\<open>int(nan)\<close> into the empty text and the append does not look at
  it. The parser reads no move from that record, so the next loop ends in its "could not
  parse line" branch. The submit path refuses the same coordinate.
\<close>

theorem import_nan_record:
  "load_gcode [''G1 Xnan Y0''] False five
     = (Imported 1 0, \<lparr>gcode_lines = gcode_lines five @ [''G1 X Y0''],
                        last_snapshot = Some (gcode_lines five)\<rparr>)
   \<and> parse_g1_xy ''G1 X Y0'' = Inr None
   \<and> loop_block ''82'' [] ''2.25'' ''0'' (snd (load_gcode [''G1 Xnan Y0''] False five))
       = Some (Warned (ParseError ''G1 X Y0''), snd (load_gcode [''G1 Xnan Y0''] False five))
   \<and> submit_line ''nan'' ''0'' five = (Warned MissingValues, five)"
  by code_simp

subsection \<open>The parser against the specification's wording\<close>

lemma takeWhile_absent: "c \<notin> set l \<Longrightarrow> takeWhile (\<lambda>d. d \<noteq> c) l = l"
  by (induction l) auto

lemma cut_at_takeWhile: "cut_at c l = takeWhile (\<lambda>d. d \<noteq> c) l"
  by (simp add: cut_at_def takeWhile_absent)

lemma takeWhile_twice: "takeWhile P (takeWhile Q l) = takeWhile (\<lambda>x. Q x \<and> P x) l"
  by (induction l) simp_all

lemma clean_eq: "strip (cut_at (CHR ''#'') (cut_at (CHR '';'') line)) = spec_clean line"
  by (simp add: cut_at_takeWhile takeWhile_twice spec_clean_def)

lemma upper_char_X: "upper_char c = CHR ''X'' \<longleftrightarrow> c = CHR ''X'' \<or> c = CHR ''x''"
  by (auto simp: upper_char_def split: if_splits)

lemma upper_char_Y: "upper_char c = CHR ''Y'' \<longleftrightarrow> c = CHR ''Y'' \<or> c = CHR ''y''"
  by (auto simp: upper_char_def split: if_splits)

lemma upper_char_M: "upper_char c = CHR ''M'' \<longleftrightarrow> c = CHR ''M'' \<or> c = CHR ''m''"
  by (auto simp: upper_char_def split: if_splits)

lemma upper_char_3: "upper_char c = CHR ''3'' \<longleftrightarrow> c = CHR ''3''"
  by (auto simp: upper_char_def split: if_splits)

lemma upper_char_5: "upper_char c = CHR ''5'' \<longleftrightarrow> c = CHR ''5''"
  by (auto simp: upper_char_def split: if_splits)

lemma starts_X: "startswith (upper t) ''X'' \<longleftrightarrow> is_x_token t"
  by (cases t) (auto simp: startswith_def upper_def is_x_token_def upper_char_X)

lemma starts_Y: "startswith (upper t) ''Y'' \<longleftrightarrow> is_y_token t"
  by (cases t) (auto simp: startswith_def upper_def is_y_token_def upper_char_Y)

lemma starts_spindle:
  "startswith (upper l) ''M3'' \<or> startswith (upper l) ''M5'' \<longleftrightarrow> is_spindle l"
proof (cases l)
  case Nil
  then show ?thesis by (simp add: startswith_def upper_def is_spindle_def)
next
  case (Cons a l')
  show ?thesis
  proof (cases l')
    case Nil
    with Cons show ?thesis by (simp add: startswith_def upper_def is_spindle_def)
  next
    case (Cons b l'')
    with \<open>l = a # l'\<close> show ?thesis
      by (auto simp: startswith_def upper_def is_spindle_def upper_char_M upper_char_3 upper_char_5)
  qed
qed

lemma is_space_comma: "is_space (if c = CHR '','' then CHR '' '' else c) \<longleftrightarrow> is_space c \<or> c = CHR '',''"
  by (simp add: is_space_def)

lemma not_space_comma: "\<not> is_space (CHR '','')"
  by (simp add: is_space_def)

lemma split_acc_comma:
  "CHR '','' \<notin> set cur \<Longrightarrow> split_acc cur (replace_comma l) = spec_tokens_acc cur l"
proof (induction l arbitrary: cur)
  case Nil
  show ?case by (simp add: replace_comma_def)
next
  case (Cons c l)
  have IH0: "split_acc [] (replace_comma l) = spec_tokens_acc [] l"
    using Cons.IH [of "[]"] by simp
  show ?case
  proof (cases "is_space c \<or> c = CHR '',''")
    case True
    then have "is_space (if c = CHR '','' then CHR '' '' else c)" by (simp add: is_space_comma)
    with True IH0 show ?thesis
      using replace_comma_def by (auto simp: replace_comma_def)
  next
    case False
    then have ns: "\<not> is_space c" and nc: "c \<noteq> CHR '',''" by auto
    from Cons.prems nc have "CHR '','' \<notin> set (cur @ [c])" by simp
    then have "split_acc (cur @ [c]) (replace_comma l) = spec_tokens_acc (cur @ [c]) l"
      by (rule Cons.IH)
    with ns nc show ?thesis
      using replace_comma_def by (auto simp: replace_comma_def)
  qed
qed

lemma tokens_eq: "split_ws (replace_comma l) = spec_tokens l"
  by (simp add: split_ws_def spec_tokens_def split_acc_comma)

lemma drop1: "drop (Suc 0) t = tl t"
  by (simp add: drop_Suc)

lemma well_formed_iff: "well_formed t \<longleftrightarrow> (\<exists>v. py_float (tl t) = Inr v)"
  by (cases "py_float (tl t)") (simp_all add: well_formed_def)

lemma not_well_formed: "\<not> well_formed t \<Longrightarrow> py_float (tl t) = Inl ValueError"
proof -
  assume n: "\<not> well_formed t"
  then obtain e where e: "py_float (tl t) = Inl e"
    by (cases "py_float (tl t)") (auto simp: well_formed_iff)
  then have "e = ValueError" by (rule py_float_exn)
  with e show ?thesis by simp
qed

lemma scan_tokens_Cons:
  "scan_tokens (t # ts) x y =
     (if is_x_token t then
        (case py_float (tl t) of
           Inr v \<Rightarrow> scan_tokens ts (Some v) y
         | Inl e \<Rightarrow> (if e = ValueError then Inr None else Inl e))
      else if is_y_token t then
        (case py_float (tl t) of
           Inr v \<Rightarrow> scan_tokens ts x (Some v)
         | Inl e \<Rightarrow> (if e = ValueError then Inr None else Inl e))
      else scan_tokens ts x y)"
  by (simp add: Let_def starts_X starts_Y drop1)

lemma xy_exclusive: "is_x_token t \<Longrightarrow> \<not> is_y_token t"
  by (auto simp: is_x_token_def is_y_token_def)

lemma scan_tokens_X:
  "is_x_token t \<Longrightarrow> py_float (tl t) = Inr v \<Longrightarrow> scan_tokens (t # ts) x y = scan_tokens ts (Some v) y"
  by (simp add: scan_tokens_Cons del: scan_tokens.simps)

lemma scan_tokens_Y:
  "is_y_token t \<Longrightarrow> py_float (tl t) = Inr v \<Longrightarrow> scan_tokens (t # ts) x y = scan_tokens ts x (Some v)"
  by (auto simp: scan_tokens_Cons dest: xy_exclusive simp del: scan_tokens.simps)

lemma scan_tokens_other:
  "\<not> is_x_token t \<Longrightarrow> \<not> is_y_token t \<Longrightarrow> scan_tokens (t # ts) x y = scan_tokens ts x y"
  by (simp add: scan_tokens_Cons del: scan_tokens.simps)

lemma scan_tokens_malformed:
  "is_x_token t \<or> is_y_token t \<Longrightarrow> \<not> well_formed t \<Longrightarrow> scan_tokens (t # ts) x y = Inr None"
  by (auto simp: scan_tokens_Cons not_well_formed simp del: scan_tokens.simps)

lemma scan_tokens_good:
  "\<forall>t \<in> set ts. is_x_token t \<or> is_y_token t \<longrightarrow> well_formed t \<Longrightarrow>
   \<exists>x' y'. scan_tokens ts x y = Inr (Some (x', y'))
     \<and> (x' \<noteq> None \<longleftrightarrow> x \<noteq> None \<or> (\<exists>t \<in> set ts. is_x_token t))
     \<and> (y' \<noteq> None \<longleftrightarrow> y \<noteq> None \<or> (\<exists>t \<in> set ts. is_y_token t))"
proof (induction ts arbitrary: x y)
  case Nil
  show ?case by simp
next
  case (Cons t ts)
  then have rest: "\<forall>t \<in> set ts. is_x_token t \<or> is_y_token t \<longrightarrow> well_formed t" by simp
  consider (X) "is_x_token t" | (Y) "\<not> is_x_token t" "is_y_token t"
    | (O) "\<not> is_x_token t" "\<not> is_y_token t" by blast
  then show ?case
  proof cases
    case X
    with Cons.prems have "well_formed t" by simp
    then obtain v where v: "py_float (tl t) = Inr v" by (auto simp: well_formed_iff)
    have ny: "\<not> is_y_token t" using X by (rule xy_exclusive)
    from Cons.IH [OF rest, of "Some v" y] obtain x' y' where
      "scan_tokens ts (Some v) y = Inr (Some (x', y'))" "x' \<noteq> None"
      "y' \<noteq> None \<longleftrightarrow> y \<noteq> None \<or> (\<exists>t \<in> set ts. is_y_token t)" by blast
    with X ny show ?thesis
      unfolding scan_tokens_X [OF X v] by auto
  next
    case Y
    with Cons.prems have "well_formed t" by simp
    then obtain v where v: "py_float (tl t) = Inr v" by (auto simp: well_formed_iff)
    from Cons.IH [OF rest, of x "Some v"] obtain x' y' where
      "scan_tokens ts x (Some v) = Inr (Some (x', y'))" "y' \<noteq> None"
      "x' \<noteq> None \<longleftrightarrow> x \<noteq> None \<or> (\<exists>t \<in> set ts. is_x_token t)" by blast
    with Y show ?thesis
      unfolding scan_tokens_Y [OF Y(2) v] by auto
  next
    case O
    from Cons.IH [OF rest, of x y] obtain x' y' where
      "scan_tokens ts x y = Inr (Some (x', y'))"
      "x' \<noteq> None \<longleftrightarrow> x \<noteq> None \<or> (\<exists>t \<in> set ts. is_x_token t)"
      "y' \<noteq> None \<longleftrightarrow> y \<noteq> None \<or> (\<exists>t \<in> set ts. is_y_token t)" by blast
    with O show ?thesis
      unfolding scan_tokens_other [OF O] by auto
  qed
qed

lemma scan_tokens_bad:
  "\<exists>t \<in> set ts. (is_x_token t \<or> is_y_token t) \<and> \<not> well_formed t \<Longrightarrow>
   scan_tokens ts x y = Inr None"
proof (induction ts arbitrary: x y)
  case Nil
  then show ?case by simp
next
  case (Cons t ts)
  show ?case
  proof (cases "(is_x_token t \<or> is_y_token t) \<and> \<not> well_formed t")
    case True
    then show ?thesis using scan_tokens_malformed by blast
  next
    case False
    with Cons.prems have ex: "\<exists>t \<in> set ts. (is_x_token t \<or> is_y_token t) \<and> \<not> well_formed t"
      by auto
    consider (X) "is_x_token t" | (Y) "\<not> is_x_token t" "is_y_token t"
      | (O) "\<not> is_x_token t" "\<not> is_y_token t" by blast
    then show ?thesis
    proof cases
      case X
      with False obtain v where v: "py_float (tl t) = Inr v" by (auto simp: well_formed_iff)
      show ?thesis unfolding scan_tokens_X [OF X v] using ex by (rule Cons.IH)
    next
      case Y
      with False obtain v where v: "py_float (tl t) = Inr v" by (auto simp: well_formed_iff)
      show ?thesis unfolding scan_tokens_Y [OF Y(2) v] using ex by (rule Cons.IH)
    next
      case O
      show ?thesis unfolding scan_tokens_other [OF O] using ex by (rule Cons.IH)
    qed
  qed
qed

lemma spec_tokens_acc_Nil: "spec_tokens [] = []"
  by (simp add: spec_tokens_def)

lemma parse_g1_xy_unfold:
  "parse_g1_xy line =
     (if spec_clean line = [] \<or> is_spindle (spec_clean line) then Inr None
      else case scan_tokens (spec_tokens (spec_clean line)) None None of
             Inl e \<Rightarrow> Inl e
           | Inr None \<Rightarrow> Inr None
           | Inr (Some (x_val, y_val)) \<Rightarrow>
               (case (x_val, y_val) of (Some x, Some y) \<Rightarrow> Inr (Some (x, y)) | _ \<Rightarrow> Inr None))"
  unfolding parse_g1_xy_def clean_eq Let_def tokens_eq starts_spindle by simp

text \<open>
  Claim C5. A line yields a move exactly when, after everything from the first \<open>;\<close> or
  \<open>#\<close> is dropped and the rest is trimmed, the line does not begin with \<open>M3\<close> or \<open>M5\<close>
  in either case, and among its tokens (split at white space and commas) there is an X
  token and a Y token and every X or Y token has a remainder that \<^verbatim>\<open>float()\<close> reads.
  One X or Y token with a malformed remainder makes the whole line yield none. "Begins
  with" is the test of the program: the first two characters of the line.
\<close>

theorem parser_matches_spec:
  "((\<exists>m. parse_g1_xy line = Inr (Some m)) \<longleftrightarrow> spec_parses line)
   \<and> ((\<exists>t \<in> set (spec_tokens (spec_clean line)). (is_x_token t \<or> is_y_token t) \<and> \<not> well_formed t)
        \<longrightarrow> parse_g1_xy line = Inr None)"
proof -
  let ?l = "spec_clean line"
  let ?ts = "spec_tokens ?l"
  show ?thesis
  proof (cases "\<exists>t \<in> set ?ts. (is_x_token t \<or> is_y_token t) \<and> \<not> well_formed t")
    case True
    then have "scan_tokens ?ts None None = Inr None" by (rule scan_tokens_bad)
    then have "parse_g1_xy line = Inr None" by (simp add: parse_g1_xy_unfold)
    moreover from True have "\<not> spec_parses line" by (auto simp: spec_parses_def Let_def)
    ultimately show ?thesis by simp
  next
    case False
    then have good: "\<forall>t \<in> set ?ts. is_x_token t \<or> is_y_token t \<longrightarrow> well_formed t" by blast
    from scan_tokens_good [OF good, of None None]
    obtain x' y' where sc: "scan_tokens ?ts None None = Inr (Some (x', y'))"
      and x': "x' \<noteq> None \<longleftrightarrow> (\<exists>t \<in> set ?ts. is_x_token t)"
      and y': "y' \<noteq> None \<longleftrightarrow> (\<exists>t \<in> set ?ts. is_y_token t)" by auto
    have empty: "?l = [] \<Longrightarrow> \<not> (\<exists>t \<in> set ?ts. is_x_token t)"
      by (simp add: spec_tokens_def)
    have "(\<exists>m. parse_g1_xy line = Inr (Some m))
        \<longleftrightarrow> \<not> is_spindle ?l \<and> ?l \<noteq> [] \<and> x' \<noteq> None \<and> y' \<noteq> None"
      by (auto simp: parse_g1_xy_unfold sc split: option.splits)
    also have "\<dots> \<longleftrightarrow> spec_parses line"
    proof -
      have xs: "x' \<noteq> None \<longleftrightarrow> (\<exists>t \<in> set ?ts. is_x_token t)" by (rule x')
      have ys: "y' \<noteq> None \<longleftrightarrow> (\<exists>t \<in> set ?ts. is_y_token t)" by (rule y')
      have "spec_parses line \<longleftrightarrow> \<not> is_spindle ?l \<and> x' \<noteq> None \<and> y' \<noteq> None"
        unfolding spec_parses_def Let_def xs ys using good by blast
      moreover have "x' \<noteq> None \<Longrightarrow> ?l \<noteq> []" using empty xs by blast
      ultimately show ?thesis by blast
    qed
    finally show ?thesis using False by blast
  qed
qed

theorem parser_matches_spec_witness:
  "spec_parses ''g1 x1.5, Y-2 ; feed later'' \<and> parse_g1_xy ''g1 x1.5, Y-2 ; feed later'' = Inr (Some (Fin (3 / 2), Fin (- 2)))
   \<and> \<not> spec_parses ''M3 X1 Y2'' \<and> \<not> spec_parses ''G1 X1'' \<and> \<not> spec_parses ''# G1 X1 Y2''
   \<and> spec_tokens (spec_clean ''G1 X1 Y2 X1..5'') = [''G1'', ''X1'', ''Y2'', ''X1..5'']
   \<and> is_x_token ''X1..5'' \<and> \<not> well_formed ''X1..5''
   \<and> parse_g1_xy ''G1 X1 Y2 X1..5'' = Inr None"
proof -
  have a: "spec_parses ''g1 x1.5, Y-2 ; feed later''" by code_simp
  have b: "parse_g1_xy ''g1 x1.5, Y-2 ; feed later'' = Inr (Some (Fin (3 / 2), Fin (- 2)))" by code_simp
  have c: "\<not> spec_parses ''M3 X1 Y2'' \<and> \<not> spec_parses ''G1 X1'' \<and> \<not> spec_parses ''# G1 X1 Y2''" by code_simp
  have d: "spec_tokens (spec_clean ''G1 X1 Y2 X1..5'') = [''G1'', ''X1'', ''Y2'', ''X1..5'']" by code_simp
  have e: "is_x_token ''X1..5'' \<and> \<not> well_formed ''X1..5''" by code_simp
  from parser_matches_spec [of "''G1 X1 Y2 X1..5''"] d e
  have f: "parse_g1_xy ''G1 X1 Y2 X1..5'' = Inr None" by simp
  from a b c d e f show ?thesis by simp
qed

subsection \<open>The loop builder\<close>













subsection \<open>Termination of the loop builder\<close>







subsection \<open>Canonical numbers: trimming\<close>








lemma rstrip_ch_subset: "set (rstrip_ch c s) \<subseteq> set s"
  unfolding rstrip_ch_def using set_dropWhileD [of _ "\<lambda>d. d = c" "rev s"] by auto

subsection \<open>Canonical numbers: digits\<close>

lemma digit_cases:
  "d < 10 \<Longrightarrow> d = 0 \<or> d = 1 \<or> d = 2 \<or> d = 3 \<or> d = 4 \<or> d = 5 \<or> d = 6 \<or> d = 7 \<or> d = 8 \<or> d = (9 :: nat)"
  by arith

lemma is_digit_digit_char: "d < 10 \<Longrightarrow> is_digit (digit_char d)"
proof -
  assume "d < 10"
  from digit_cases [OF this] show ?thesis
    by (elim disjE) (simp_all add: is_digit_def digit_char_def)
qed


lemma digit_char_0: "digit_char 0 = CHR ''0''"
  by (simp add: digit_char_def)




lemma str_nat_digits: "\<forall>c \<in> set (str_nat n). is_digit c"
proof (induction n rule: str_nat.induct)
  case (1 n)
  show ?case
  proof (cases "n < 10")
    case True
    then show ?thesis by (subst str_nat.simps) (simp add: is_digit_digit_char)
  next
    case False
    with 1 have "\<forall>c \<in> set (str_nat (n div 10)). is_digit c" by simp
    with False show ?thesis by (subst str_nat.simps) (simp add: is_digit_digit_char)
  qed
qed









subsection \<open>Canonical numbers: reading a decimal back\<close>










subsection \<open>Canonical numbers: the six-decimal form\<close>









subsection \<open>Canonical numbers: the text of a finite value\<close>

lemma fmt_value_Fin_eq:
  "fmt_value (Fin v) =
     Inr (if \<bar>v - of_int (trunc v)\<bar> < 1 / 10 ^ 9 then str_int (trunc v)
          else rstrip_ch (CHR ''.'') (rstrip_ch (CHR ''0'') (fmt_6f v)))"
  by (simp add: fmt_value_def py_sub_def)












subsection \<open>Records read back\<close>

lemma canon_chars:
  assumes "fmt_value (Fin v) = Inr t"
  shows "\<forall>c \<in> set t. is_digit c \<or> c = CHR ''-'' \<or> c = CHR ''.''"
proof
  fix c assume c: "c \<in> set t"
  have z: "is_digit (CHR ''0'')" by (simp add: is_digit_def)
  have d: "c \<in> set (str_nat m) \<Longrightarrow> is_digit c" for m using str_nat_digits by blast
  show "is_digit c \<or> c = CHR ''-'' \<or> c = CHR ''.''"
  proof (cases "\<bar>v - of_int (trunc v)\<bar> < 1 / 10 ^ 9")
    case True
    with assms have "t = str_int (trunc v)" by (simp add: fmt_value_Fin_eq)
    with c have "c = CHR ''-'' \<or> c \<in> set (str_nat (nat (- trunc v))) \<or> c \<in> set (str_nat (nat (trunc v)))"
      by (auto simp: str_int_def split: if_splits)
    with d show ?thesis by blast
  next
    case False
    with assms have "t = rstrip_ch (CHR ''.'') (rstrip_ch (CHR ''0'') (fmt_6f v))"
      by (simp add: fmt_value_Fin_eq)
    with c have "c \<in> set (rstrip_ch (CHR ''0'') (fmt_6f v))" using rstrip_ch_subset by blast
    then have "c \<in> set (fmt_6f v)" using rstrip_ch_subset by blast
    then obtain a b where "c = CHR ''-'' \<or> c = CHR ''.'' \<or> c = CHR ''0''
        \<or> c \<in> set (str_nat a) \<or> c \<in> set (str_nat b)"
      by (auto simp: fmt_6f_def Let_def zfill_def split: if_splits)
    with d z show ?thesis by blast
  qed
qed







subsection \<open>Canonicalization\<close>

lemma fmt_number_str_value: "fmt_number_str (Fin v) = fmt_value (Fin v)"
proof -
  obtain t where "fmt_value (Fin v) = Inr t" using fmt_value_Fin by blast
  then show ?thesis by (simp add: fmt_number_str_def fmt_try_def)
qed





subsection \<open>Export\<close>

lemma has_feed_ws_iff:
  "has_feed_ws r \<longleftrightarrow> (\<exists>i. Suc i < length r \<and> is_space (r ! i) \<and> r ! Suc i = CHR ''F'')"
  unfolding has_feed_ws_def by (auto simp: less_diff_conv)

lemma has_feed_iff:
  "has_feed r \<longleftrightarrow>
     (\<exists>i. Suc i < length r \<and> (r ! i = CHR '' '' \<or> r ! i = CHR 0x09) \<and> r ! Suc i = CHR ''F'')"
  unfolding has_feed_def by (auto simp: less_diff_conv)

lemma has_feed_ws_eq:
  assumes "\<forall>c \<in> set r. is_space c \<longrightarrow> c = CHR '' '' \<or> c = CHR 0x09"
  shows "has_feed r \<longleftrightarrow> has_feed_ws r"
proof
  assume "has_feed r"
  then obtain i where i: "Suc i < length r" "r ! i = CHR '' '' \<or> r ! i = CHR 0x09"
    "r ! Suc i = CHR ''F''" unfolding has_feed_iff by blast
  from i(2) have "is_space (r ! i)" by (auto simp: is_space_def)
  with i show "has_feed_ws r" unfolding has_feed_ws_iff by blast
next
  assume "has_feed_ws r"
  then obtain i where i: "Suc i < length r" "is_space (r ! i)" "r ! Suc i = CHR ''F''"
    unfolding has_feed_ws_iff by blast
  from i(1) have "r ! i \<in> set r" by simp
  with assms i(2) have "r ! i = CHR '' '' \<or> r ! i = CHR 0x09" by blast
  with i show "has_feed r" unfolding has_feed_iff by blast
qed

lemma has_feed_ws_F: "has_feed_ws r \<Longrightarrow> CHR ''F'' \<in> set r"
proof -
  assume "has_feed_ws r"
  then obtain i where "Suc i < length r" "r ! Suc i = CHR ''F''"
    unfolding has_feed_ws_iff by blast
  then show ?thesis by (metis nth_mem)
qed

lemma fmt_number_str_no_F: "fmt_number_str v = Inr t \<Longrightarrow> CHR ''F'' \<notin> set t"
proof (cases v)
  case (Fin q)
  assume "fmt_number_str v = Inr t"
  with Fin have t: "fmt_value (Fin q) = Inr t" by (simp add: fmt_number_str_value)
  have nd: "\<not> is_digit (CHR ''F'')" by (simp add: is_digit_def)
  show ?thesis
  proof
    assume "CHR ''F'' \<in> set t"
    with canon_chars [OF t] have "is_digit (CHR ''F'') \<or> CHR ''F'' = CHR ''-'' \<or> CHR ''F'' = CHR ''.''"
      by blast
    with nd show False by simp
  qed
next
  case PInf
  assume "fmt_number_str v = Inr t"
  with PInf show ?thesis by (simp add: fmt_number_str_def fmt_try_def fmt_value_def)
next
  case NInf
  assume "fmt_number_str v = Inr t"
  with NInf show ?thesis by (simp add: fmt_number_str_def fmt_try_def fmt_value_def)
next
  case NaN
  assume "fmt_number_str v = Inr t"
  with NaN show ?thesis by (auto simp: fmt_number_str_def fmt_try_def fmt_value_def)
qed

lemma record_no_feed:
  assumes "fmt_number_str xn = Inr fx" and "fmt_number_str yn = Inr fy"
  shows "\<not> has_feed_ws (new_text fx fy) \<and> \<not> has_feed (new_text fx fy)"
proof -
  have "CHR ''F'' \<notin> set (new_text fx fy)"
    using fmt_number_str_no_F [OF assms(1)] fmt_number_str_no_F [OF assms(2)]
    by (simp add: new_text_def)
  then have a: "\<not> has_feed_ws (new_text fx fy)" using has_feed_ws_F by blast
  have "has_feed r \<Longrightarrow> has_feed_ws r" for r
    unfolding has_feed_iff has_feed_ws_iff by (auto simp: is_space_def)
  with a show ?thesis by blast
qed

text \<open>
  Claim C8. Export of a document without records fails with the "nothing to save"
  notice and produces no lines. Otherwise the lines are \<open>M3\<close>, the first record, followed
  by \<open>F200\<close> after a blank exactly when the record has no feed field, the remaining
  records unchanged, and \<open>M5\<close>. The program looks for an \<open>F\<close> after a blank or a tab;
  on a record with no other white space that is an \<open>F\<close> after any white space. A record
  written by the program holds no \<open>F\<close> at all, so it always gets the suffix.
\<close>

theorem save_gcode_spec:
  "save_gcode st =
     (if gcode_lines st = [] then Inl NothingToSave
      else Inr ([''M3'', hd (gcode_lines st) @ (if has_feed (hd (gcode_lines st)) then [] else '' F200'')]
                @ tl (gcode_lines st) @ [''M5'']))
   \<and> ((\<forall>c \<in> set r. is_space c \<longrightarrow> c = CHR '' '' \<or> c = CHR 0x09) \<longrightarrow> has_feed r = has_feed_ws r)
   \<and> (fmt_number_str xn = Inr fx \<and> fmt_number_str yn = Inr fy
        \<longrightarrow> \<not> has_feed_ws (new_text fx fy) \<and> \<not> has_feed (new_text fx fy))"
  using has_feed_ws_eq [of r] record_no_feed [of xn fx yn fy]
  by (simp add: save_gcode_def has_feed_contains Let_def)

theorem save_gcode_spec_witness:
  "save_gcode \<lparr>gcode_lines = [], last_snapshot = None\<rparr> = Inl NothingToSave
   \<and> save_gcode \<lparr>gcode_lines = [''G1 X1 Y2''], last_snapshot = None\<rparr> = Inr [''M3'', ''G1 X1 Y2 F200'', ''M5'']
   \<and> fmt_number_str (Fin 1) = Inr ''1'' \<and> fmt_number_str (Fin 2) = Inr ''2''
   \<and> new_text ''1'' ''2'' = ''G1 X1 Y2''
   \<and> \<not> has_feed ''G1 X1 Y2'' \<and> \<not> has_feed_ws ''G1 X1 Y2''
   \<and> has_feed ''G1 X1 Y2 F90'' \<and> has_feed_ws ''G1 X1 Y2 F90''
   \<and> save_gcode \<lparr>gcode_lines = [''G1 X1 Y2 F90'', ''G1 X3 Y2''], last_snapshot = None\<rparr>
       = Inr [''M3'', ''G1 X1 Y2 F90'', ''G1 X3 Y2'', ''M5'']"
proof -
  have f: "fmt_number_str (Fin 1) = Inr ''1'' \<and> fmt_number_str (Fin 2) = Inr ''2''
      \<and> new_text ''1'' ''2'' = ''G1 X1 Y2''" by code_simp
  have sp: "\<forall>c \<in> set ''G1 X1 Y2 F90''. is_space c \<longrightarrow> c = CHR '' '' \<or> c = CHR 0x09"
    by (simp add: is_space_def)
  have f2: "has_feed ''G1 X1 Y2 F90''" by code_simp
  note t1 = save_gcode_spec [of "\<lparr>gcode_lines = [''G1 X1 Y2''], last_snapshot = None\<rparr>"
      "''G1 X1 Y2 F90''" "Fin 1" "''1''" "Fin 2" "''2''"]
  from t1 f have nf: "\<not> has_feed ''G1 X1 Y2'' \<and> \<not> has_feed_ws ''G1 X1 Y2''" by simp
  from t1 sp f2 have fw: "has_feed_ws ''G1 X1 Y2 F90''" by blast
  from t1 nf have s1: "save_gcode \<lparr>gcode_lines = [''G1 X1 Y2''], last_snapshot = None\<rparr>
      = Inr [''M3'', ''G1 X1 Y2 F200'', ''M5'']" by simp
  from save_gcode_spec [of "\<lparr>gcode_lines = [], last_snapshot = None\<rparr>" r xn fx yn fy]
  have s0: "save_gcode \<lparr>gcode_lines = [], last_snapshot = None\<rparr> = Inl NothingToSave" by simp
  from save_gcode_spec [of "\<lparr>gcode_lines = [''G1 X1 Y2 F90'', ''G1 X3 Y2''], last_snapshot = None\<rparr>" r xn fx yn fy] f2
  have s2: "save_gcode \<lparr>gcode_lines = [''G1 X1 Y2 F90'', ''G1 X3 Y2''], last_snapshot = None\<rparr>
       = Inr [''M3'', ''G1 X1 Y2 F90'', ''G1 X3 Y2'', ''M5'']" by simp
  from s0 s1 f nf f2 fw s2 show ?thesis by simp
qed

end
